theory Spec2Isabelle
  imports Main "HOL-Library.Sublist"
begin

section \<open>Python values\<close>

text \<open>
  A Python \<open>str\<close> is a sequence of Unicode code points. A code point below 256 is
  \<open>Latin c\<close>, with \<open>c\<close> the \<^typ>\<open>char\<close> of that number; \<open>Wide n\<close> is the
  code point \<open>256 + n\<close>. A string literal of the source is \<open>lit\<close> of the same
  literal.
\<close>

datatype uchar = Latin char | Wide nat

type_synonym ustring = "uchar list"

definition lit :: "string \<Rightarrow> ustring" where
  "lit s = map Latin s"

text \<open>
  The properties of the code points above 255 come from the Unicode database of the
  Python runtime, which is not part of the repository: they are a parameter.
  \<open>decimal_above n\<close> says that the code point \<open>256 + n\<close> is a decimal digit (what
  \<open>\d\<close> matches), \<open>alnum_above n\<close> that it is a letter or another numeric
  character, \<open>printable_above n\<close> that \<open>repr\<close> prints it as it is.
\<close>

record unicode_db =
  decimal_above :: "nat \<Rightarrow> bool"
  alnum_above :: "nat \<Rightarrow> bool"
  printable_above :: "nat \<Rightarrow> bool"

text \<open>
  The agent works on the loosely structured values that the provider hands back: JSON
  decoded into Python objects. A dictionary is an association list in insertion order
  (its keys are strings and distinct); \<open>map_of\<close> is the lookup. Floating-point
  numbers are left out of the value universe.
\<close>

datatype json =
    JNone
  | JBool bool
  | JInt int
  | JStr ustring
  | JList "json list"
  | JDict "(ustring \<times> json) list"

text \<open>
  Exceptions are values. \<open>AttributeError\<close> carries its message, because
  \<open>search_jira_issues\<close> catches it and prints it. \<open>Uncaught\<close> is an exception
  outside the class \<open>Exception\<close> (a cancellation, a keyboard interrupt), which no
  handler of the agent catches. The others are only ever propagated.
\<close>

datatype py_error = AttributeError ustring | TypeError | KeyError | Uncaught ustring

text \<open>The name that \<open>type(v).__name__\<close> gives.\<close>

fun type_name :: "json \<Rightarrow> string" where
  "type_name JNone = ''NoneType''"
| "type_name (JBool _) = ''bool''"
| "type_name (JInt _) = ''int''"
| "type_name (JStr _) = ''str''"
| "type_name (JList _) = ''list''"
| "type_name (JDict _) = ''dict''"

text \<open>
  \<open>v.get(key, default)\<close>: only a dictionary has the method; on any other
  value the attribute lookup raises.
\<close>

definition no_attribute :: "json \<Rightarrow> string \<Rightarrow> py_error" where
  "no_attribute v attr =
     AttributeError (lit ([CHR 0x27] @ type_name v @ [CHR 0x27] @ '' object has no attribute ''
                          @ [CHR 0x27] @ attr @ [CHR 0x27]))"

fun py_get :: "json \<Rightarrow> ustring \<Rightarrow> json \<Rightarrow> py_error + json" where
  "py_get (JDict kvs) key dflt = Inr (case map_of kvs key of Some v \<Rightarrow> v | None \<Rightarrow> dflt)"
| "py_get v key dflt = Inl (no_attribute v ''get'')"

text \<open>A chained call \<open>e.get(key, default)\<close> where \<open>e\<close> may already have raised.\<close>

definition then_get :: "py_error + json \<Rightarrow> ustring \<Rightarrow> json \<Rightarrow> py_error + json" where
  "then_get r key dflt = (case r of Inl e \<Rightarrow> Inl e | Inr v \<Rightarrow> py_get v key dflt)"

text \<open>Lists and dictionaries are unhashable; using one as a dictionary key raises.\<close>

fun hashable :: "json \<Rightarrow> bool" where
  "hashable (JList _) = False"
| "hashable (JDict _) = False"
| "hashable _ = True"

section \<open>The agent\<close>

text \<open>
  The agent holds the client of the external provider. A provider call
  \<open>call_tool(name, arguments)\<close> has one of three outcomes: it returns a value, it
  raises an exception \<open>e\<close> of the class \<open>Exception\<close>, of which the agent only ever
  uses \<open>str(e)\<close>, or it raises an exception outside that class. The methods are
  coroutines that await one another in sequence; they are modelled as plain calls.
\<close>

datatype outcome = Returned json | Raised ustring | RaisedBase ustring

record agent =
  mcp_client :: "string \<Rightarrow> (string \<times> json) list \<Rightarrow> outcome"

subsection \<open>Suggestion rules\<close>

definition priority_scores :: "(ustring \<times> int) list" where
  "priority_scores =
     [(lit ''Highest'', 5), (lit ''High'', 4), (lit ''Medium'', 3), (lit ''Low'', 2),
      (lit ''Lowest'', 1)]"

text \<open>\<open>priority_scores.get(priority, 0)\<close>: the key is hashed first.\<close>

definition priority_scores_get :: "json \<Rightarrow> int \<Rightarrow> py_error + int" where
  "priority_scores_get priority dflt =
     (if \<not> hashable priority then Inl TypeError
      else case priority of
             JStr s \<Rightarrow> Inr (case map_of priority_scores s of Some n \<Rightarrow> n | None \<Rightarrow> dflt)
           | _ \<Rightarrow> Inr dflt)"

text \<open>
  A suggestion entry is a dictionary that the source writes out in full; its keys are
  the literals of the source.
\<close>

type_synonym solution = "(string \<times> ustring) list"

definition low_priority_solution :: solution where
  "low_priority_solution =
     [(''priority'', lit ''low''),
      (''suggestion'',
       lit ''This is a low priority issue. Consider addressing after critical items.''),
      (''action'', lit ''Schedule for next sprint'')]"

definition high_priority_solution :: solution where
  "high_priority_solution =
     [(''priority'', lit ''high''),
      (''suggestion'', lit ''This is a high priority issue requiring immediate attention.''),
      (''action'', lit ''Escalate to team lead and address immediately'')]"

definition debugging_solution :: solution where
  "debugging_solution =
     [(''type'', lit ''debugging''),
      (''suggestion'', lit ''Review recent code changes and check error logs''),
      (''action'', lit ''Run diagnostic tests and reproduce the issue'')]"

definition implementation_solution :: solution where
  "implementation_solution =
     [(''type'', lit ''implementation''),
      (''suggestion'', lit ''Break down into smaller tasks and estimate effort''),
      (''action'', lit ''Create subtasks and assign to team members'')]"

text \<open>
  The three reads at the head of \<open>suggest_solutions\<close>, each a chain of three or two
  \<open>get\<close> calls with its defaults.
\<close>

definition read_issue_type :: "json \<Rightarrow> py_error + json" where
  "read_issue_type issue_data =
     then_get (then_get (py_get issue_data (lit ''fields'') (JDict [])) (lit ''issuetype'')
                 (JDict []))
       (lit ''name'') (JStr [])"

definition read_priority :: "json \<Rightarrow> py_error + json" where
  "read_priority issue_data =
     then_get (then_get (py_get issue_data (lit ''fields'') (JDict [])) (lit ''priority'')
                 (JDict []))
       (lit ''name'') (JStr [])"

definition read_description :: "json \<Rightarrow> py_error + json" where
  "read_description issue_data =
     then_get (py_get issue_data (lit ''fields'') (JDict [])) (lit ''description'') (JStr [])"

definition suggest_solutions :: "agent \<Rightarrow> json \<Rightarrow> py_error + solution list" where
  "suggest_solutions self issue_data =
     (let solutions = [] in
      case read_issue_type issue_data of Inl e \<Rightarrow> Inl e | Inr issue_type \<Rightarrow>
     (case read_priority issue_data of Inl e \<Rightarrow> Inl e | Inr priority \<Rightarrow>
     (case read_description issue_data of Inl e \<Rightarrow> Inl e | Inr description \<Rightarrow>
     (case priority_scores_get priority 0 of Inl e \<Rightarrow> Inl e | Inr score \<Rightarrow>
      let solutions =
            (if score \<le> 3 then solutions @ [low_priority_solution]
             else solutions @ [high_priority_solution]);
          solutions =
            (if issue_type = JStr (lit ''Bug'') then solutions @ [debugging_solution]
             else if issue_type = JStr (lit ''Story'') then solutions @ [implementation_solution]
             else solutions)
      in Inr solutions))))"

subsection \<open>Text of a value\<close>

text \<open>
  An f-string field \<open>{v}\<close> is \<open>str(v)\<close>: a string stands for itself, any other
  value is printed as \<open>repr\<close> prints it.
\<close>

fun str_nat :: "nat \<Rightarrow> string" where
  "str_nat n =
     (if n < 10 then [''0123456789'' ! n]
      else str_nat (n div 10) @ [''0123456789'' ! (n mod 10)])"

declare str_nat.simps [simp del]

definition str_int :: "int \<Rightarrow> string" where
  "str_int i = (if i < 0 then ''-'' @ str_nat (nat (- i)) else str_nat (nat i))"

text \<open>The \<open>k\<close> hexadecimal digits of \<open>n\<close>, as \<open>repr\<close> writes an escape.\<close>

definition hex_digits :: "nat \<Rightarrow> nat \<Rightarrow> string" where
  "hex_digits k n = map (\<lambda>i. ''0123456789abcdef'' ! ((n div 16 ^ i) mod 16)) (rev [0 ..< k])"

fun repr_char :: "unicode_db \<Rightarrow> uchar \<Rightarrow> uchar \<Rightarrow> ustring" where
  "repr_char db quote (Latin c) =
     (let n = (of_char c :: nat) in
      if Latin c = quote \<or> c = CHR 0x5C then [Latin (CHR 0x5C), Latin c]
      else if c = CHR 0x09 then lit [CHR 0x5C, CHR ''t'']
      else if c = CHR 0x0A then lit [CHR 0x5C, CHR ''n'']
      else if c = CHR 0x0D then lit [CHR 0x5C, CHR ''r'']
      else if n < 0x20 \<or> (0x7F \<le> n \<and> n \<le> 0xA0) \<or> n = 0xAD
        then lit ([CHR 0x5C, CHR ''x''] @ hex_digits 2 n)
      else [Latin c])"
| "repr_char db quote (Wide n) =
     (if printable_above db n then [Wide n]
      else if 256 + n < 0x10000 then lit ([CHR 0x5C, CHR ''u''] @ hex_digits 4 (256 + n))
      else lit ([CHR 0x5C, CHR ''U''] @ hex_digits 8 (256 + n)))"

definition repr_str :: "unicode_db \<Rightarrow> ustring \<Rightarrow> ustring" where
  "repr_str db s =
     (let quote = (if Latin (CHR 0x27) \<in> set s \<and> Latin (CHR 0x22) \<notin> set s
                   then Latin (CHR 0x22) else Latin (CHR 0x27))
      in [quote] @ concat (map (repr_char db quote) s) @ [quote])"

fun join :: "ustring \<Rightarrow> ustring list \<Rightarrow> ustring" where
  "join sep [] = []"
| "join sep [x] = x"
| "join sep (x # y # ys) = x @ sep @ join sep (y # ys)"

primrec py_repr :: "unicode_db \<Rightarrow> json \<Rightarrow> ustring" where
  "py_repr db JNone = lit ''None''"
| "py_repr db (JBool b) = (if b then lit ''True'' else lit ''False'')"
| "py_repr db (JInt i) = lit (str_int i)"
| "py_repr db (JStr s) = repr_str db s"
| "py_repr db (JList xs) = lit ''['' @ join (lit '', '') (map (py_repr db) xs) @ lit '']''"
| "py_repr db (JDict kvs) =
     lit ''{''
     @ join (lit '', '')
         (map (\<lambda>kv. repr_str db (fst kv) @ lit '': '' @ snd kv)
            (map (map_prod id (py_repr db)) kvs))
     @ lit ''}''"

definition py_str :: "unicode_db \<Rightarrow> json \<Rightarrow> ustring" where
  "py_str db v = (case v of JStr s \<Rightarrow> s | _ \<Rightarrow> py_repr db v)"

subsection \<open>Operators on values\<close>

text \<open>Truth value of an object in a condition.\<close>

fun py_truthy :: "json \<Rightarrow> bool" where
  "py_truthy JNone = False"
| "py_truthy (JBool b) = b"
| "py_truthy (JInt i) = (i \<noteq> 0)"
| "py_truthy (JStr s) = (s \<noteq> [])"
| "py_truthy (JList xs) = (xs \<noteq> [])"
| "py_truthy (JDict kvs) = (kvs \<noteq> [])"

text \<open>
  \<open>s in v\<close> for a string \<open>s\<close>: a key of a dictionary, an element of a list, a
  substring of a string; the other values are not containers.
\<close>

fun py_in :: "ustring \<Rightarrow> json \<Rightarrow> py_error + bool" where
  "py_in s (JDict kvs) = Inr (map_of kvs s \<noteq> None)"
| "py_in s (JList xs) = Inr (List.member xs (JStr s))"
| "py_in s (JStr t) = Inr (sublist s t)"
| "py_in s v = Inl TypeError"

text \<open>\<open>v[s]\<close> for a string \<open>s\<close>: only a dictionary can be indexed by a string.\<close>

fun py_getitem :: "json \<Rightarrow> ustring \<Rightarrow> py_error + json" where
  "py_getitem (JDict kvs) s = (case map_of kvs s of Some v \<Rightarrow> Inr v | None \<Rightarrow> Inl KeyError)"
| "py_getitem v s = Inl TypeError"

fun py_len :: "json \<Rightarrow> py_error + nat" where
  "py_len (JStr s) = Inr (length s)"
| "py_len (JList xs) = Inr (length xs)"
| "py_len (JDict kvs) = Inr (length kvs)"
| "py_len v = Inl TypeError"

text \<open>
  The elements that \<open>for x in v[:n]\<close> runs over. A slice of a list is its prefix; a
  slice of a string is a string, whose elements are its one-character strings; a
  dictionary cannot be sliced (the subscript raises \<open>TypeError\<close>, or \<open>KeyError\<close>
  from Python 3.12 on; \<open>TypeError\<close> stands for both).
\<close>

fun py_slice_to :: "json \<Rightarrow> nat \<Rightarrow> py_error + json list" where
  "py_slice_to (JList xs) n = Inr (take n xs)"
| "py_slice_to (JStr s) n = Inr (map (\<lambda>c. JStr [c]) (take n s))"
| "py_slice_to v n = Inl TypeError"

subsection \<open>Lookup client\<close>

text \<open>
  Both lookups make one provider call. The call made is returned beside the result, so
  that what the dispatcher asked of the provider can be stated. \<open>except Exception\<close>
  turns an exception of that class raised inside \<open>try\<close> into a dictionary with the
  key \<open>error\<close>; an exception outside the class passes through.
\<close>

type_synonym tool_call = "string \<times> (string \<times> json) list"

definition error_value :: "ustring \<Rightarrow> json" where
  "error_value message = JDict [(lit ''error'', JStr message)]"

text \<open>
  \<open>str(e)\<close> of an exception raised inside \<open>try\<close>; besides the provider's own,
  that can only be the \<open>AttributeError\<close> of \<open>response.get\<close>.
\<close>

definition str_of_error :: "py_error \<Rightarrow> ustring" where
  "str_of_error e = (case e of AttributeError m \<Rightarrow> m | _ \<Rightarrow> [])"

text \<open>The default of the parameter \<open>max_results\<close> of \<open>search_jira_issues\<close>.\<close>

definition default_max_results :: json where
  "default_max_results = JInt 10"

definition search_jira_issues ::
  "agent \<Rightarrow> json \<Rightarrow> json \<Rightarrow> tool_call list \<times> (py_error + json)"
where
  "search_jira_issues self query max_results =
     (let arguments = [(''jql'', query), (''max_results'', max_results)] in
      ([(''atlassian_search_issues'', arguments)],
       case mcp_client self ''atlassian_search_issues'' arguments of
         RaisedBase e \<Rightarrow> Inl (Uncaught e)
       | Raised e \<Rightarrow> Inr (error_value (lit ''Failed to search issues: '' @ e))
       | Returned response \<Rightarrow>
           (case py_get response (lit ''issues'') (JList []) of
              Inl e \<Rightarrow> Inr (error_value (lit ''Failed to search issues: '' @ str_of_error e))
            | Inr issues \<Rightarrow> Inr issues)))"

definition get_issue_details :: "agent \<Rightarrow> json \<Rightarrow> tool_call list \<times> (py_error + json)" where
  "get_issue_details self issue_key =
     (let arguments = [(''issue_key'', issue_key)] in
      ([(''atlassian_get_issue'', arguments)],
       case mcp_client self ''atlassian_get_issue'' arguments of
         RaisedBase e \<Rightarrow> Inl (Uncaught e)
       | Raised e \<Rightarrow> Inr (error_value (lit ''Failed to get issue details: '' @ e))
       | Returned response \<Rightarrow> Inr response))"

subsection \<open>Issue key extraction\<close>

text \<open>
  \<open>re.search(r'\b[A-Z]+-\d+\b', text)\<close>. On a \<open>str\<close> pattern the classes are the
  Unicode ones. \<open>[A-Z]\<close> is the 26 letters. \<open>\d\<close> is a decimal digit: below 256
  only \<open>0\<close> to \<open>9\<close>, above as the database says. A word character, which decides
  \<open>\b\<close>, is an alphanumeric character or the underscore, and a decimal digit is
  alphanumeric.
\<close>

fun is_upper :: "uchar \<Rightarrow> bool" where
  "is_upper (Latin c) = (let n = (of_char c :: nat) in 0x41 \<le> n \<and> n \<le> 0x5A)"
| "is_upper (Wide n) = False"

fun is_digit :: "unicode_db \<Rightarrow> uchar \<Rightarrow> bool" where
  "is_digit db (Latin c) = (let n = (of_char c :: nat) in 0x30 \<le> n \<and> n \<le> 0x39)"
| "is_digit db (Wide n) = decimal_above db n"

fun is_word :: "unicode_db \<Rightarrow> uchar \<Rightarrow> bool" where
  "is_word db (Latin c) =
     (let n = (of_char c :: nat) in
      (0x30 \<le> n \<and> n \<le> 0x39) \<or> (0x41 \<le> n \<and> n \<le> 0x5A) \<or> n = 0x5F \<or>
      (0x61 \<le> n \<and> n \<le> 0x7A) \<or> n = 0xAA \<or> n = 0xB2 \<or> n = 0xB3 \<or> n = 0xB5 \<or>
      n = 0xB9 \<or> n = 0xBA \<or> (0xBC \<le> n \<and> n \<le> 0xBE) \<or> (0xC0 \<le> n \<and> n \<le> 0xD6) \<or>
      (0xD8 \<le> n \<and> n \<le> 0xF6) \<or> 0xF8 \<le> n)"
| "is_word db (Wide n) = (alnum_above db n \<or> decimal_above db n)"

text \<open>
  \<open>\b\<close> holds between the text already passed and the text still ahead when exactly
  one of the two neighbouring characters is a word character; the ends of the text
  count as non-word.
\<close>

definition at_boundary :: "unicode_db \<Rightarrow> ustring \<Rightarrow> ustring \<Rightarrow> bool" where
  "at_boundary db seen ahead =
     ((seen \<noteq> [] \<and> is_word db (last seen)) \<noteq> (ahead \<noteq> [] \<and> is_word db (hd ahead)))"

text \<open>
  The ways a greedy \<open>X+\<close> can match at the head of a text, in the order the matcher
  tries them: the longest run first, then each shorter one, down to one character. Each
  is the matched part with the text left over.
\<close>

definition greedy :: "(uchar \<Rightarrow> bool) \<Rightarrow> ustring \<Rightarrow> (ustring \<times> ustring) list" where
  "greedy P s = map (\<lambda>n. (take n s, drop n s)) (rev [1 ..< Suc (length (takeWhile P s))])"

text \<open>The first alternative that succeeds, as backtracking finds it.\<close>

fun first_some :: "('a \<Rightarrow> 'b option) \<Rightarrow> 'a list \<Rightarrow> 'b option" where
  "first_some f [] = None"
| "first_some f (x # xs) = (case f x of Some y \<Rightarrow> Some y | None \<Rightarrow> first_some f xs)"

text \<open>The pattern tried at one position: \<open>seen\<close> is the text to its left.\<close>

definition match_pattern :: "unicode_db \<Rightarrow> ustring \<Rightarrow> ustring \<Rightarrow> ustring option" where
  "match_pattern db seen s =
     (if \<not> at_boundary db seen s then None
      else first_some
        (\<lambda>(letters, r).
           case r of
             [] \<Rightarrow> None
           | c # r' \<Rightarrow>
               if c \<noteq> Latin (CHR ''-'') then None
               else first_some
                 (\<lambda>(digits, ahead).
                    if at_boundary db (seen @ letters @ [c] @ digits) ahead
                    then Some (letters @ [c] @ digits) else None)
                 (greedy (is_digit db) r'))
        (greedy is_upper s))"

text \<open>\<open>re.search\<close> tries the positions from left to right and stops at the first match.\<close>

fun search_from :: "unicode_db \<Rightarrow> ustring \<Rightarrow> ustring \<Rightarrow> ustring option" where
  "search_from db seen [] = match_pattern db seen []"
| "search_from db seen (c # cs) =
     (case match_pattern db seen (c # cs) of
        Some k \<Rightarrow> Some k
      | None \<Rightarrow> search_from db (seen @ [c]) cs)"

text \<open>\<open>_extract_issue_key\<close>: \<open>match.group(0) if match else None\<close>.\<close>

definition extract_issue_key :: "unicode_db \<Rightarrow> ustring \<Rightarrow> json" where
  "extract_issue_key db text =
     (case search_from db [] text of Some k \<Rightarrow> JStr k | None \<Rightarrow> JNone)"

subsection \<open>Response formatter\<close>

definition solution_get :: "solution \<Rightarrow> string \<Rightarrow> ustring \<Rightarrow> ustring" where
  "solution_get solution key dflt = (case map_of solution key of Some v \<Rightarrow> v | None \<Rightarrow> dflt)"

text \<open>The loop of \<open>_format_response\<close> over \<open>enumerate(solutions, 1)\<close>.\<close>

fun response_loop :: "nat \<Rightarrow> solution list \<Rightarrow> ustring \<Rightarrow> ustring" where
  "response_loop idx [] response = response"
| "response_loop idx (solution # rest) response =
     response_loop (Suc idx) rest
       (response
        @ (lit (str_nat idx) @ lit ''. ''
           @ solution_get solution ''suggestion'' (lit ''No suggestion'') @ lit [CHR 0x0A])
        @ (lit ''   Action: '' @ solution_get solution ''action'' (lit ''No action'')
           @ lit [CHR 0x0A, CHR 0x0A]))"

definition format_response ::
  "unicode_db \<Rightarrow> agent \<Rightarrow> json \<Rightarrow> solution list \<Rightarrow> py_error + ustring"
where
  "format_response db self issue_data solutions =
     (case py_get issue_data (lit ''key'') (JStr (lit ''Unknown'')) of
        Inl e \<Rightarrow> Inl e
      | Inr issue_key \<Rightarrow>
     (case then_get (py_get issue_data (lit ''fields'') (JDict [])) (lit ''summary'')
             (JStr (lit ''No summary'')) of
        Inl e \<Rightarrow> Inl e
      | Inr summary \<Rightarrow>
          (let response = lit ''**Issue: '' @ py_str db issue_key @ lit ''**'' @ lit [CHR 0x0A];
               response = response
                 @ (lit ''Summary: '' @ py_str db summary @ lit [CHR 0x0A, CHR 0x0A]);
               response = response @ (lit ''**Suggested Solutions:**'' @ lit [CHR 0x0A])
           in Inr (response_loop 1 solutions response))))"

text \<open>The loop of \<open>_format_search_results\<close> over the slice \<open>results[:5]\<close>.\<close>

fun search_results_loop :: "unicode_db \<Rightarrow> json list \<Rightarrow> ustring \<Rightarrow> py_error + ustring" where
  "search_results_loop db [] response = Inr response"
| "search_results_loop db (issue # rest) response =
     (case py_get issue (lit ''key'') (JStr (lit ''Unknown'')) of
        Inl e \<Rightarrow> Inl e
      | Inr key \<Rightarrow>
     (case then_get (py_get issue (lit ''fields'') (JDict [])) (lit ''summary'')
             (JStr (lit ''No summary'')) of
        Inl e \<Rightarrow> Inl e
      | Inr summary \<Rightarrow>
          search_results_loop db rest
            (response
             @ (lit ''- '' @ py_str db key @ lit '': '' @ py_str db summary @ lit [CHR 0x0A]))))"

definition format_search_results :: "unicode_db \<Rightarrow> agent \<Rightarrow> json \<Rightarrow> py_error + ustring" where
  "format_search_results db self results =
     (if \<not> py_truthy results then Inr (lit ''No issues found matching your query.'')
      else
        case py_len results of Inl e \<Rightarrow> Inl e | Inr n \<Rightarrow>
       (let response = lit ''Found '' @ lit (str_nat n) @ lit '' issue(s):''
                       @ lit [CHR 0x0A, CHR 0x0A] in
        case py_slice_to results 5 of Inl e \<Rightarrow> Inl e | Inr first_five \<Rightarrow>
          search_results_loop db first_five response))"

subsection \<open>Dispatcher\<close>

text \<open>
  \<open>process_question\<close> returns the provider calls it made and either the string it
  returns or the exception that leaves it. The \<open>context\<close> argument is never read.
\<close>

definition process_question ::
  "unicode_db \<Rightarrow> agent \<Rightarrow> ustring \<Rightarrow> 'context \<Rightarrow> tool_call list \<times> (py_error + ustring)"
where
  "process_question db self question context =
     (let issue_key = extract_issue_key db question in
      if py_truthy issue_key then
        (let (calls, looked_up) = get_issue_details self issue_key in
         (calls,
          case looked_up of Inl e \<Rightarrow> Inl e | Inr issue_data \<Rightarrow>
         (case py_in (lit ''error'') issue_data of Inl e \<Rightarrow> Inl e | Inr has_error \<Rightarrow>
            if \<not> has_error then
              (case suggest_solutions self issue_data of Inl e \<Rightarrow> Inl e | Inr solutions \<Rightarrow>
                 format_response db self issue_data solutions)
            else
              (case py_getitem issue_data (lit ''error'') of Inl e \<Rightarrow> Inl e | Inr reason \<Rightarrow>
                 Inr (lit ''Could not retrieve issue '' @ py_str db issue_key @ lit '': ''
                      @ py_str db reason)))))
      else
        (let (calls, searched) = search_jira_issues self (JStr question) default_max_results in
         (calls,
          case searched of Inl e \<Rightarrow> Inl e | Inr search_results \<Rightarrow>
         (case (if type_name search_results = ''dict'' then py_in (lit ''error'') search_results
                else Inr False) of
            Inl e \<Rightarrow> Inl e
          | Inr failed \<Rightarrow>
              if failed then
                (case py_getitem search_results (lit ''error'') of
                   Inl e \<Rightarrow> Inl e
                 | Inr reason \<Rightarrow> Inr (lit ''Search failed: '' @ py_str db reason))
              else format_search_results db self search_results))))"

section \<open>The notions of the properties\<close>

text \<open>
  An identifier as the specification words it: one or more uppercase letters, a hyphen,
  one or more digits. The letters are \<open>A\<close> to \<open>Z\<close> and a digit is a decimal
  digit of any script, as in the pattern.
\<close>

definition is_identifier :: "unicode_db \<Rightarrow> ustring \<Rightarrow> bool" where
  "is_identifier db k =
     (let letters = takeWhile is_upper k; r = dropWhile is_upper k in
      letters \<noteq> [] \<and>
      (case r of
         [] \<Rightarrow> False
       | c # digits \<Rightarrow>
           c = Latin (CHR ''-'') \<and> digits \<noteq> [] \<and> list_all (is_digit db) digits))"

definition contains_identifier :: "unicode_db \<Rightarrow> ustring \<Rightarrow> bool" where
  "contains_identifier db text = list_ex (is_identifier db) (sublists text)"

text \<open>
  An identifier that stands in the text at position \<open>i\<close> with length \<open>n\<close>, with no
  word character next to it on either side.
\<close>

definition delimited_at :: "unicode_db \<Rightarrow> ustring \<Rightarrow> nat \<Rightarrow> nat \<Rightarrow> bool" where
  "delimited_at db text i n =
     (i + n \<le> length text \<and> is_identifier db (take n (drop i text)) \<and>
      (i = 0 \<or> \<not> is_word db (text ! (i - 1))) \<and>
      (i + n = length text \<or> \<not> is_word db (text ! (i + n))))"

text \<open>
  The first delimited identifier of a text: no delimited identifier starts to its left.
\<close>

definition first_delimited :: "unicode_db \<Rightarrow> ustring \<Rightarrow> nat \<Rightarrow> nat \<Rightarrow> bool" where
  "first_delimited db text i n =
     (delimited_at db text i n \<and>
      (\<forall>j\<in>{..<i}. \<forall>m\<in>{..length text}. \<not> delimited_at db text j m))"

text \<open>
  A record of the data model: a dictionary whose \<open>fields\<close>, when present, is a
  dictionary whose \<open>issuetype\<close> and \<open>priority\<close>, when present, are
  dictionaries, and whose priority name is hashable (no list, no dictionary). The type
  name and the
  priority name of a record are the \<open>name\<close> of these two parts; a part or a
  name that is missing gives the empty string.
\<close>

fun is_dict :: "json \<Rightarrow> bool" where
  "is_dict (JDict _) = True"
| "is_dict _ = False"

definition field_of :: "json \<Rightarrow> ustring \<Rightarrow> json option" where
  "field_of r k = (case r of JDict kvs \<Rightarrow> map_of kvs k | _ \<Rightarrow> None)"

definition record_name :: "json \<Rightarrow> ustring \<Rightarrow> json" where
  "record_name r part =
     (case field_of r (lit ''fields'') of
        None \<Rightarrow> JStr []
      | Some f \<Rightarrow>
          (case field_of f part of
             None \<Rightarrow> JStr []
           | Some p \<Rightarrow> (case field_of p (lit ''name'') of None \<Rightarrow> JStr [] | Some n \<Rightarrow> n)))"

definition part_shaped :: "json \<Rightarrow> ustring \<Rightarrow> bool" where
  "part_shaped f part = (case field_of f part of None \<Rightarrow> True | Some p \<Rightarrow> is_dict p)"

definition record_shaped :: "json \<Rightarrow> bool" where
  "record_shaped r =
     (is_dict r \<and>
      (case field_of r (lit ''fields'') of
         None \<Rightarrow> True
       | Some f \<Rightarrow>
           is_dict f \<and> part_shaped f (lit ''issuetype'') \<and> part_shaped f (lit ''priority'')) \<and>
      hashable (record_name r (lit ''priority'')))"

text \<open>
  The score of a priority name as the specification tabulates it, and the two kinds of
  entry: an urgency entry is tagged with \<open>priority\<close>, a type-specific entry with
  \<open>type\<close>.
\<close>

definition priority_score :: "json \<Rightarrow> int" where
  "priority_score p =
     (if p = JStr (lit ''Highest'') then 5 else if p = JStr (lit ''High'') then 4
      else if p = JStr (lit ''Medium'') then 3 else if p = JStr (lit ''Low'') then 2
      else if p = JStr (lit ''Lowest'') then 1 else 0)"



text \<open>
  A record as the search formatter reads it: a dictionary whose \<open>fields\<close>, when
  present, is a dictionary. Its key and summary are what is stored there, with the
  placeholders of the formatter when they are missing. \<open>result_line\<close> is the line
  that lists one record.
\<close>

definition search_record_shaped :: "json \<Rightarrow> bool" where
  "search_record_shaped r =
     (is_dict r \<and> (case field_of r (lit ''fields'') of None \<Rightarrow> True | Some f \<Rightarrow> is_dict f))"

definition record_key :: "json \<Rightarrow> json" where
  "record_key r =
     (case field_of r (lit ''key'') of None \<Rightarrow> JStr (lit ''Unknown'') | Some k \<Rightarrow> k)"

definition record_summary :: "json \<Rightarrow> json" where
  "record_summary r =
     (case field_of r (lit ''fields'') of
        None \<Rightarrow> JStr (lit ''No summary'')
      | Some f \<Rightarrow>
          (case field_of f (lit ''summary'') of
             None \<Rightarrow> JStr (lit ''No summary'')
           | Some s \<Rightarrow> s))"

definition result_line :: "unicode_db \<Rightarrow> json \<Rightarrow> ustring" where
  "result_line db issue =
     lit ''- '' @ py_str db (record_key issue) @ lit '': '' @ py_str db (record_summary issue)
     @ lit [CHR 0x0A]"



section \<open>Sample inputs\<close>

text \<open>
  A fragment of the Unicode database: the Arabic-Indic digits (U+0660 to U+0669) and the
  full-width digits (U+FF10 to U+FF19) are decimal, the Greek small letters (U+03B1 to
  U+03C9) are alphanumeric, and the line separator U+2028 is not printable.
\<close>

definition sample_db :: unicode_db where
  "sample_db =
     \<lparr>decimal_above = (\<lambda>n. (0x660 \<le> 256 + n \<and> 256 + n \<le> 0x669) \<or>
                             (0xFF10 \<le> 256 + n \<and> 256 + n \<le> 0xFF19)),
      alnum_above = (\<lambda>n. 0x3B1 \<le> 256 + n \<and> 256 + n \<le> 0x3C9),
      printable_above = (\<lambda>n. 256 + n \<noteq> 0x2028)\<rparr>"

text \<open>The text \<open>SUP-\<close>, the Arabic-Indic digit one (U+0661), \<open> OPS-2\<close>.\<close>

definition arabic_question :: ustring where
  "arabic_question = lit ''SUP-'' @ [Wide 1377] @ lit '' OPS-2''"

definition example_agent :: agent where
  "example_agent = \<lparr>mcp_client = (\<lambda>tool arguments. Raised (lit ''unavailable''))\<rparr>"


definition example_record :: "string \<Rightarrow> string \<Rightarrow> json" where
  "example_record issue_type priority =
     JDict [(lit ''key'', JStr (lit ''SUP-129'')),
            (lit ''fields'',
             JDict [(lit ''summary'', JStr (lit ''Login fails'')),
                    (lit ''issuetype'', JDict [(lit ''name'', JStr (lit issue_type))]),
                    (lit ''priority'', JDict [(lit ''name'', JStr (lit priority))])])]"

definition example_record_2 :: "string \<Rightarrow> string \<Rightarrow> json" where
  "example_record_2 issue_type priority =
     JDict [(lit ''fields'',
             JDict [(lit ''description'', JStr (lit ''Timeout after the last deployment'')),
                    (lit ''priority'', JDict [(lit ''name'', JStr (lit priority)),
                                              (lit ''id'', JInt 2)]),
                    (lit ''summary'', JStr (lit ''Checkout is slow'')),
                    (lit ''issuetype'', JDict [(lit ''name'', JStr (lit issue_type))])]),
            (lit ''key'', JStr (lit ''OPS-7''))]"

definition example_record_untyped :: json where
  "example_record_untyped =
     JDict [(lit ''key'', JStr (lit ''SUP-130'')), (lit ''fields'', JDict [])]"



definition example_issue :: "string \<Rightarrow> string \<Rightarrow> json" where
  "example_issue key summary =
     JDict [(lit ''key'', JStr (lit key)),
            (lit ''fields'', JDict [(lit ''summary'', JStr (lit summary))])]"

definition example_results :: "json list" where
  "example_results =
     [example_issue ''PAY-1'' ''Card declined'', example_issue ''PAY-2'' ''Refund stuck'',
      example_issue ''PAY-3'' ''Double charge'', example_issue ''PAY-4'' ''Timeout'',
      example_issue ''PAY-5'' ''Wrong currency'', example_issue ''PAY-6'' ''Missing receipt'',
      example_issue ''PAY-7'' ''Late webhook'']"



definition error_field_agent :: agent where
  "error_field_agent =
     \<lparr>mcp_client = (\<lambda>tool arguments.
        Returned (JDict [(lit ''key'', JStr (lit ''SUP-129'')),
                         (lit ''error'', JStr (lit ''NullPointerException in login'')),
                         (lit ''fields'', JDict [(lit ''summary'', JStr (lit ''Login fails''))])]))\<rparr>"

section \<open>Suggestion rules: properties\<close>

text \<open>Literals are told apart by their characters.\<close>

lemma lit_eq_iff [simp]: "lit a = lit b \<longleftrightarrow> a = b"
  by (simp add: lit_def inj_map_eq_map inj_def)

lemma lit_Nil [simp]: "lit [] = []" "lit s = [] \<longleftrightarrow> s = []" "[] = lit s \<longleftrightarrow> s = []"
  by (auto simp: lit_def)

lemma lit_append [simp]: "lit a @ lit b = lit (a @ b)" "lit a @ lit b @ u = lit (a @ b) @ u"
  by (simp_all add: lit_def)

lemma py_get_dict: "is_dict v \<Longrightarrow> py_get v k d = Inr (case field_of v k of Some x \<Rightarrow> x | None \<Rightarrow> d)"
  by (cases v) (simp_all add: field_of_def)


lemma read_part_shaped:
  assumes "is_dict r"
    and "case field_of r (lit ''fields'') of None \<Rightarrow> True | Some f \<Rightarrow> is_dict f \<and> part_shaped f part"
  shows "then_get (then_get (py_get r (lit ''fields'') (JDict [])) part (JDict [])) (lit ''name'') (JStr [])
         = Inr (record_name r part)"
  using assms
  by (auto simp: then_get_def py_get_dict record_name_def part_shaped_def field_of_def
           split: option.splits)

lemma read_issue_type_shaped: "record_shaped r \<Longrightarrow> read_issue_type r = Inr (record_name r (lit ''issuetype''))"
  unfolding read_issue_type_def record_shaped_def
  by (intro read_part_shaped) (auto split: option.splits)

lemma read_priority_shaped: "record_shaped r \<Longrightarrow> read_priority r = Inr (record_name r (lit ''priority''))"
  unfolding read_priority_def record_shaped_def
  by (intro read_part_shaped) (auto split: option.splits)

lemma read_description_shaped: "record_shaped r \<Longrightarrow> \<exists>d. read_description r = Inr d"
  unfolding read_description_def record_shaped_def
  by (auto simp: then_get_def py_get_dict split: option.splits)

lemma priority_scores_get_score:
  "hashable p \<Longrightarrow> priority_scores_get p 0 = Inr (priority_score p)"
  by (cases p) (auto simp: priority_scores_get_def priority_scores_def priority_score_def)

text \<open>The result of \<open>suggest_solutions\<close> on a record, in closed form.\<close>

lemma suggest_solutions_shaped:
  assumes "record_shaped r"
  shows "suggest_solutions self r =
           Inr ((if priority_score (record_name r (lit ''priority'')) \<le> 3 then low_priority_solution
                 else high_priority_solution)
                # (if record_name r (lit ''issuetype'') = JStr (lit ''Bug'') then [debugging_solution]
                   else if record_name r (lit ''issuetype'') = JStr (lit ''Story'') then [implementation_solution]
                   else []))"
proof -
  obtain d where d: "read_description r = Inr d"
    using read_description_shaped [OF assms] by blast
  have h: "hashable (record_name r (lit ''priority''))"
    using assms by (simp add: record_shaped_def)
  show ?thesis
    by (simp add: suggest_solutions_def read_issue_type_shaped [OF assms]
          read_priority_shaped [OF assms] d priority_scores_get_score [OF h])
qed





lemma example_record_shaped: "record_shaped (example_record t p)"
  by (simp add: example_record_def record_shaped_def field_of_def part_shaped_def record_name_def)

lemma example_record_names:
  "record_name (example_record t p) (lit ''issuetype'') = JStr (lit t)"
  "record_name (example_record t p) (lit ''priority'') = JStr (lit p)"
  by (simp_all add: example_record_def field_of_def record_name_def)

lemma example_record_2_shaped: "record_shaped (example_record_2 t p)"
  by (simp add: example_record_2_def record_shaped_def field_of_def part_shaped_def record_name_def)

lemma example_record_2_names:
  "record_name (example_record_2 t p) (lit ''issuetype'') = JStr (lit t)"
  "record_name (example_record_2 t p) (lit ''priority'') = JStr (lit p)"
  by (simp_all add: example_record_2_def field_of_def record_name_def)

lemma example_record_untyped_shaped: "record_shaped example_record_untyped"
  by (simp add: example_record_untyped_def record_shaped_def field_of_def record_name_def
        part_shaped_def)

lemma example_record_untyped_names:
  "record_name example_record_untyped (lit ''issuetype'') = JStr []"
  "record_name example_record_untyped (lit ''priority'') = JStr []"
  by (simp_all add: example_record_untyped_def field_of_def record_name_def)







text \<open>
  C3. On every record, the entries after the first are: the debugging entry when the
  type name is exactly \<open>Bug\<close>, the implementation (breakdown) entry when it is
  exactly \<open>Story\<close>, and none for any other type name, a missing one included. So
  the list has a second entry if and only if the type name is one of the two.
\<close>

theorem suggest_solutions_type_augmentation:
  assumes "record_shaped r"
  shows "case suggest_solutions self r of
           Inl e \<Rightarrow> False
         | Inr sols \<Rightarrow>
             drop 1 sols =
               (if record_name r (lit ''issuetype'') = JStr (lit ''Bug'') then [debugging_solution]
                else if record_name r (lit ''issuetype'') = JStr (lit ''Story'') then [implementation_solution]
                else []) \<and>
             (length sols = 2) =
               (record_name r (lit ''issuetype'') = JStr (lit ''Bug'') \<or> record_name r (lit ''issuetype'') = JStr (lit ''Story''))"
  by (simp add: suggest_solutions_shaped [OF assms])

theorem suggest_solutions_type_augmentation_witness:
  "record_shaped (example_record ''Bug'' ''Low'') \<and>
   (case suggest_solutions example_agent (example_record ''Bug'' ''Low'') of
      Inl e \<Rightarrow> False | Inr sols \<Rightarrow> drop 1 sols = [debugging_solution] \<and> length sols = 2) \<and>
   record_shaped (example_record ''bug'' ''Low'') \<and>
   (case suggest_solutions example_agent (example_record ''bug'' ''Low'') of
      Inl e \<Rightarrow> False | Inr sols \<Rightarrow> drop 1 sols = [] \<and> length sols \<noteq> 2) \<and>
   record_shaped (example_record ''Epic'' ''Low'') \<and>
   (case suggest_solutions example_agent (example_record ''Epic'' ''Low'') of
      Inl e \<Rightarrow> False | Inr sols \<Rightarrow> drop 1 sols = [] \<and> length sols \<noteq> 2) \<and>
   record_shaped example_record_untyped \<and>
   (case suggest_solutions example_agent example_record_untyped of
      Inl e \<Rightarrow> False | Inr sols \<Rightarrow> drop 1 sols = [] \<and> length sols \<noteq> 2)"
  using suggest_solutions_type_augmentation [where self = example_agent and r = "example_record ''Bug'' ''Low''"]
    suggest_solutions_type_augmentation [where self = example_agent and r = "example_record ''bug'' ''Low''"]
    suggest_solutions_type_augmentation [where self = example_agent and r = "example_record ''Epic'' ''Low''"]
    suggest_solutions_type_augmentation [where self = example_agent and r = "example_record_untyped"]
  by (simp add: example_record_shaped example_record_untyped_shaped example_record_names
        example_record_untyped_names split: sum.splits)





text \<open>
  C9. Two records that agree on the priority name and on the type name get the same
  list of suggestions, whatever their other fields hold: key, summary and description
  do not reach the output.
\<close>

theorem suggest_solutions_noninterference:
  assumes "record_shaped r1" and "record_shaped r2"
    and "record_name r1 (lit ''priority'') = record_name r2 (lit ''priority'')"
    and "record_name r1 (lit ''issuetype'') = record_name r2 (lit ''issuetype'')"
  shows "suggest_solutions self r1 = suggest_solutions self r2 \<and> \<not> isl (suggest_solutions self r1)"
  by (simp add: suggest_solutions_shaped assms)

theorem suggest_solutions_noninterference_witness:
  "record_shaped (example_record ''Story'' ''High'') \<and>
   record_shaped (example_record_2 ''Story'' ''High'') \<and>
   example_record ''Story'' ''High'' \<noteq> example_record_2 ''Story'' ''High'' \<and>
   suggest_solutions example_agent (example_record ''Story'' ''High'')
     = suggest_solutions example_agent (example_record_2 ''Story'' ''High'')"
proof -
  have "example_record ''Story'' ''High'' \<noteq> example_record_2 ''Story'' ''High''"
    by (simp add: example_record_def example_record_2_def)
  then show ?thesis
    using suggest_solutions_noninterference [where self = example_agent
        and ?r1.0 = "example_record ''Story'' ''High''"
        and ?r2.0 = "example_record_2 ''Story'' ''High''"]
    by (simp add: example_record_shaped example_record_2_shaped example_record_names
          example_record_2_names)
qed

section \<open>Issue key extraction and routing: properties\<close>

text \<open>
  The matcher against the declarative reading of the pattern: what \<open>match_pattern\<close>
  returns is an identifier delimited on both sides, and every such identifier at the
  position tried is returned.
\<close>

lemma hyphen_class:
  "\<not> is_upper (Latin (CHR ''-''))" "\<not> is_digit db (Latin (CHR ''-''))"
  "\<not> is_word db (Latin (CHR ''-''))"
  by simp_all

lemma upper_is_word: "is_upper c \<Longrightarrow> is_word db c"
  by (cases c) (auto simp: Let_def)

lemma digit_is_word: "is_digit db c \<Longrightarrow> is_word db c"
  by (cases c) (auto simp: Let_def)

lemma is_identifier_iff:
  "is_identifier db k \<longleftrightarrow>
     (\<exists>letters digits. k = letters @ [Latin (CHR ''-'')] @ digits \<and> letters \<noteq> [] \<and> digits \<noteq> [] \<and>
        (\<forall>c\<in>set letters. is_upper c) \<and> (\<forall>c\<in>set digits. is_digit db c))"
proof
  assume a: "is_identifier db k"
  define letters where "letters = takeWhile is_upper k"
  from a obtain digits where d: "dropWhile is_upper k = Latin (CHR ''-'') # digits" "digits \<noteq> []"
      "list_all (is_digit db) digits" and l: "letters \<noteq> []"
    by (auto simp: is_identifier_def Let_def letters_def split: list.splits)
  have "k = letters @ [Latin (CHR ''-'')] @ digits"
    using takeWhile_dropWhile_id [of is_upper k] d(1) by (simp add: letters_def)
  moreover have "\<forall>c\<in>set letters. is_upper c"
    by (auto simp: letters_def dest: set_takeWhileD)
  ultimately show "\<exists>letters digits. k = letters @ [Latin (CHR ''-'')] @ digits \<and> letters \<noteq> [] \<and> digits \<noteq> [] \<and>
        (\<forall>c\<in>set letters. is_upper c) \<and> (\<forall>c\<in>set digits. is_digit db c)"
    using d l by (auto simp: list_all_iff)
next
  assume "\<exists>letters digits. k = letters @ [Latin (CHR ''-'')] @ digits \<and> letters \<noteq> [] \<and> digits \<noteq> [] \<and>
        (\<forall>c\<in>set letters. is_upper c) \<and> (\<forall>c\<in>set digits. is_digit db c)"
  then obtain letters digits where k: "k = letters @ Latin (CHR ''-'') # digits" and
    n: "letters \<noteq> []" "digits \<noteq> []" and
    c: "\<forall>c\<in>set letters. is_upper c" "\<forall>c\<in>set digits. is_digit db c"
    by auto
  have "takeWhile is_upper k = letters" "dropWhile is_upper k = Latin (CHR ''-'') # digits"
    using c(1) by (simp_all add: k takeWhile_tail dropWhile_append3)
  then show "is_identifier db k"
    using n c(2) by (simp add: is_identifier_def list_all_iff)
qed

lemma first_some_Some: "first_some f xs = Some y \<Longrightarrow> \<exists>x\<in>set xs. f x = Some y"
  by (induction xs) (auto split: option.splits)

lemma greedy_member:
  assumes "(a, b) \<in> set (greedy P s)"
  shows "a \<noteq> [] \<and> s = a @ b \<and> (\<forall>c\<in>set a. P c)"
proof -
  from assms obtain n where n: "1 \<le> n" "n \<le> length (takeWhile P s)" and
    ab: "a = take n s" "b = drop n s"
    by (auto simp: greedy_def)
  have "length (takeWhile P s) \<le> length s" by (rule length_takeWhile_le)
  with n have "a \<noteq> []" by (auto simp: ab)
  moreover have "set a \<subseteq> set (takeWhile P s)"
    using set_take_subset_set_take [OF n(2), of s] takeWhile_eq_take [of P s] by (simp add: ab)
  then have "\<forall>c\<in>set a. P c" by (auto dest: set_takeWhileD)
  ultimately show ?thesis by (simp add: ab)
qed

lemma greedy_longest_first:
  assumes "takeWhile P s \<noteq> []"
  shows "\<exists>rest. greedy P s = (takeWhile P s, dropWhile P s) # rest"
proof -
  define n where "n = length (takeWhile P s)"
  have "0 < n" using assms by (simp add: n_def)
  then have "rev [1 ..< Suc n] = n # rev [1 ..< n]" by simp
  moreover have "take n s = takeWhile P s" "drop n s = dropWhile P s"
    unfolding n_def by (simp_all add: takeWhile_eq_take [symmetric] dropWhile_eq_drop [symmetric])
  ultimately show ?thesis by (simp add: greedy_def n_def [symmetric])
qed

lemma match_pattern_sound:
  assumes "match_pattern db seen s = Some k"
  shows "\<exists>ahead. s = k @ ahead \<and> is_identifier db k \<and> at_boundary db seen s \<and> at_boundary db (seen @ k) ahead"
proof -
  from assms have b: "at_boundary db seen s"
    by (auto simp: match_pattern_def split: if_splits)
  from assms obtain letters r where
    lr: "(letters, r) \<in> set (greedy is_upper s)" and
    inner: "(case r of [] \<Rightarrow> None
            | c # r' \<Rightarrow> if c \<noteq> Latin (CHR ''-'') then None
                else first_some (\<lambda>(digits, ahead).
                       if at_boundary db (seen @ letters @ [c] @ digits) ahead
                       then Some (letters @ [c] @ digits) else None) (greedy (is_digit db) r')) = Some k"
    by (auto simp: match_pattern_def split: if_splits dest!: first_some_Some)
  from inner obtain r' where r: "r = Latin (CHR ''-'') # r'" and
    f: "first_some (\<lambda>(digits, ahead).
                       if at_boundary db (seen @ letters @ [Latin (CHR ''-'')] @ digits) ahead
                       then Some (letters @ [Latin (CHR ''-'')] @ digits) else None) (greedy (is_digit db) r') = Some k"
    by (auto split: list.splits if_splits)
  from first_some_Some [OF f] obtain digits ahead where
    da: "(digits, ahead) \<in> set (greedy (is_digit db) r')" and
    k: "k = letters @ [Latin (CHR ''-'')] @ digits" and b2: "at_boundary db (seen @ letters @ [Latin (CHR ''-'')] @ digits) ahead"
    by (auto split: if_splits)
  from greedy_member [OF lr] greedy_member [OF da] r
  have "s = k @ ahead" "is_identifier db k"
    unfolding is_identifier_iff k by auto
  with b b2 k show ?thesis by auto
qed

lemma match_pattern_complete:
  assumes "is_identifier db k" and "at_boundary db seen (k @ ahead)" and "at_boundary db (seen @ k) ahead"
  shows "match_pattern db seen (k @ ahead) = Some k"
proof -
  from assms(1) obtain letters digits where k: "k = letters @ Latin (CHR ''-'') # digits" and
    n: "letters \<noteq> []" "digits \<noteq> []" and
    c: "\<forall>c\<in>set letters. is_upper c" "\<forall>c\<in>set digits. is_digit db c"
    unfolding is_identifier_iff by auto
  have tl: "takeWhile is_upper (k @ ahead) = letters"
    and dl: "dropWhile is_upper (k @ ahead) = Latin (CHR ''-'') # digits @ ahead"
    using c(1) by (simp_all add: k takeWhile_tail dropWhile_append3)
  have "is_word db (last k)"
    using n(2) c(2) by (simp add: k digit_is_word)
  with assms(3) have na: "ahead = [] \<or> \<not> is_word db (hd ahead)"
    using k by (auto simp: at_boundary_def)
  then have "takeWhile (is_digit db) ahead = []"
    by (cases ahead) (auto dest: digit_is_word)
  then have td: "takeWhile (is_digit db) (digits @ ahead) = digits"
    and dd: "dropWhile (is_digit db) (digits @ ahead) = ahead"
    using c(2) by (simp_all add: takeWhile_append dropWhile_append takeWhile_eq_Nil_iff dropWhile_eq_self_iff)
  obtain rest where g1: "greedy is_upper (k @ ahead) = (letters, Latin (CHR ''-'') # digits @ ahead) # rest"
    using greedy_longest_first [of is_upper "k @ ahead"] n(1) by (auto simp: tl dl)
  obtain rest' where g2: "greedy (is_digit db) (digits @ ahead) = (digits, ahead) # rest'"
    using greedy_longest_first [of "is_digit db" "digits @ ahead"] n(2) by (auto simp: td dd)
  show ?thesis
    using assms(2,3) g1 g2 unfolding k by (simp add: match_pattern_def)
qed

lemma search_from_skip:
  assumes "\<forall>j<length pre. match_pattern db (seen @ take j pre) (drop j pre @ rest) = None"
  shows "search_from db seen (pre @ rest) = search_from db (seen @ pre) rest"
  using assms
proof (induction pre arbitrary: seen)
  case Nil
  then show ?case by simp
next
  case (Cons c pre)
  have "match_pattern db seen (c # pre @ rest) = None"
    using Cons.prems [rule_format, of 0] by simp
  moreover have "\<forall>j<length pre. match_pattern db ((seen @ [c]) @ take j pre) (drop j pre @ rest) = None"
    using Cons.prems by (auto dest: spec [of _ "Suc j" for j])
  ultimately show ?case
    using Cons.IH [of "seen @ [c]"] by simp
qed

lemma search_from_here: "match_pattern db seen s = Some k \<Longrightarrow> search_from db seen s = Some k"
  by (cases s) simp_all

lemma search_from_sound:
  "search_from db seen s = Some k \<Longrightarrow>
     \<exists>pre ahead. s = pre @ k @ ahead \<and> match_pattern db (seen @ pre) (k @ ahead) = Some k"
proof (induction s arbitrary: seen)
  case Nil
  then show ?case
    by (auto dest: match_pattern_sound)
next
  case (Cons c cs)
  show ?case
  proof (cases "match_pattern db seen (c # cs)")
    case (Some k')
    with Cons.prems have "k' = k" by simp
    with Some match_pattern_sound [OF Some] show ?thesis
      by (metis append_Nil append_Nil2)
  next
    case None
    with Cons.prems have "search_from db (seen @ [c]) cs = Some k" by simp
    from Cons.IH [OF this] obtain pre ahead where
      "cs = pre @ k @ ahead" "match_pattern db ((seen @ [c]) @ pre) (k @ ahead) = Some k"
      by blast
    then have "c # cs = (c # pre) @ k @ ahead \<and> match_pattern db (seen @ c # pre) (k @ ahead) = Some k"
      by simp
    then show ?thesis by blast
  qed
qed

lemma last_take_nth: "0 < i \<Longrightarrow> i \<le> length xs \<Longrightarrow> last (take i xs) = xs ! (i - 1)"
  by (cases xs) (simp_all add: last_conv_nth min.absorb2)

lemma is_identifier_ends:
  assumes "is_identifier db k"
  shows "k \<noteq> []" and "is_word db (hd k)" and "is_word db (last k)"
proof -
  from assms obtain letters digits where k: "k = letters @ Latin (CHR ''-'') # digits" and
    n: "letters \<noteq> []" "digits \<noteq> []" and
    c: "\<forall>c\<in>set letters. is_upper c" "\<forall>c\<in>set digits. is_digit db c"
    unfolding is_identifier_iff by auto
  show "k \<noteq> []" using n by (simp add: k)
  show "is_word db (hd k)" using n(1) c(1) by (simp add: k upper_is_word)
  show "is_word db (last k)" using n(2) c(2) by (simp add: k digit_is_word)
qed

lemma boundaries_of_identifier:
  assumes "is_identifier db k"
  shows "at_boundary db seen (k @ ahead) \<longleftrightarrow> seen = [] \<or> \<not> is_word db (last seen)"
    and "at_boundary db (seen @ k) ahead \<longleftrightarrow> ahead = [] \<or> \<not> is_word db (hd ahead)"
  using is_identifier_ends [OF assms] by (auto simp: at_boundary_def)

lemma delimited_at_match:
  assumes "delimited_at db text i n"
  shows "match_pattern db (take i text) (drop i text) = Some (take n (drop i text))"
proof -
  define k where "k = take n (drop i text)"
  define ahead where "ahead = drop (i + n) text"
  from assms have le: "i + n \<le> length text" and ik: "is_identifier db k"
    and b1: "i = 0 \<or> \<not> is_word db (text ! (i - 1))"
    and b2: "i + n = length text \<or> \<not> is_word db (text ! (i + n))"
    by (auto simp: delimited_at_def k_def)
  have split: "drop i text = k @ ahead"
    unfolding k_def ahead_def by (metis append_take_drop_id drop_drop add.commute)
  have "take i text = [] \<or> \<not> is_word db (last (take i text))"
    using b1 le by (auto simp: last_take_nth)
  moreover have "ahead = [] \<or> \<not> is_word db (hd ahead)"
    using b2 le by (auto simp: ahead_def hd_drop_conv_nth)
  ultimately have "match_pattern db (take i text) (k @ ahead) = Some k"
    using ik by (intro match_pattern_complete) (simp_all add: boundaries_of_identifier)
  then have "match_pattern db (take i text) (drop i text) = Some k"
    by (simp only: split)
  then show ?thesis by (simp only: k_def)
qed

lemma match_delimited_at:
  assumes "match_pattern db (take j text) (drop j text) = Some k" and "j \<le> length text"
  shows "delimited_at db text j (length k)"
proof -
  from match_pattern_sound [OF assms(1)] obtain ahead where
    split: "drop j text = k @ ahead" and ik: "is_identifier db k" and
    b1: "at_boundary db (take j text) (drop j text)" and b2: "at_boundary db (take j text @ k) ahead"
    by blast
  have len: "length text = j + length k + length ahead"
    using arg_cong [OF split, of length] assms(2) by simp
  have "take j text = [] \<or> \<not> is_word db (last (take j text))"
    using b1 ik by (simp add: split boundaries_of_identifier)
  then have c1: "j = 0 \<or> \<not> is_word db (text ! (j - 1))"
    using assms(2) by (cases "j = 0") (auto simp: last_take_nth)
  have a: "ahead = drop (j + length k) text"
    using arg_cong [OF split, of "drop (length k)"] by (simp add: add.commute)
  have na: "ahead = [] \<or> \<not> is_word db (hd ahead)"
    using b2 ik by (simp add: boundaries_of_identifier)
  have c2: "j + length k = length text \<or> \<not> is_word db (text ! (j + length k))"
  proof (cases "ahead = []")
    case True
    then show ?thesis using len by simp
  next
    case False
    then have "j + length k < length text" using len by simp
    then have "hd (drop (j + length k) text) = text ! (j + length k)"
      by (rule hd_drop_conv_nth)
    with na False show ?thesis unfolding a by simp
  qed
  have t: "take (length k) (drop j text) = k"
    unfolding split by simp
  have l: "j + length k \<le> length text"
    using len by simp
  show ?thesis
    unfolding delimited_at_def t using l ik c1 c2 by blast
qed

lemma search_from_first_delimited:
  assumes "first_delimited db text i n"
  shows "search_from db [] text = Some (take n (drop i text))"
proof -
  from assms have d: "delimited_at db text i n"
    and first: "\<And>j m. j < i \<Longrightarrow> m \<le> length text \<Longrightarrow> \<not> delimited_at db text j m"
    by (auto simp: first_delimited_def)
  from d have le: "i \<le> length text" by (simp add: delimited_at_def)
  have none: "match_pattern db ([] @ take j (take i text)) (drop j (take i text) @ drop i text) = None"
    if "j < length (take i text)" for j
  proof (rule ccontr)
    assume "match_pattern db ([] @ take j (take i text)) (drop j (take i text) @ drop i text) \<noteq> None"
    then obtain k where k: "match_pattern db ([] @ take j (take i text)) (drop j (take i text) @ drop i text) = Some k"
      by blast
    from that le have ji: "j < i" by simp
    have "drop j (take i text) @ drop i text = drop j text"
      using ji le by (metis append_take_drop_id drop_append length_take min.absorb2 less_imp_le diff_is_0_eq drop_0)
    moreover have "take j (take i text) = take j text"
      using ji by (simp add: min.absorb1)
    ultimately have m: "match_pattern db (take j text) (drop j text) = Some k"
      using k by simp
    from match_delimited_at [OF m] ji le have dl: "delimited_at db text j (length k)" by simp
    then have "length k \<le> length text" by (simp add: delimited_at_def)
    with first [OF ji] dl show False by blast
  qed
  have "search_from db [] (take i text @ drop i text) = search_from db ([] @ take i text) (drop i text)"
    by (rule search_from_skip) (use none in blast)
  also have "\<dots> = Some (take n (drop i text))"
    using delimited_at_match [OF d] by (simp add: search_from_here)
  finally show ?thesis by simp
qed

lemma search_from_identifier:
  assumes "search_from db seen s = Some k"
  shows "is_identifier db k \<and> sublist k s"
proof -
  from search_from_sound [OF assms] obtain pre ahead where
    s: "s = pre @ k @ ahead" and m: "match_pattern db (seen @ pre) (k @ ahead) = Some k"
    by blast
  from match_pattern_sound [OF m] have "is_identifier db k" by blast
  moreover have "sublist k s" unfolding s sublist_def by blast
  ultimately show ?thesis by blast
qed

lemma contains_identifier_iff:
  "contains_identifier db text \<longleftrightarrow> (\<exists>k. sublist k text \<and> is_identifier db k)"
  by (auto simp: contains_identifier_def list_ex_iff)

lemma extract_issue_key_None:
  "\<not> contains_identifier db text \<Longrightarrow> extract_issue_key db text = JNone"
proof -
  assume a: "\<not> contains_identifier db text"
  have "search_from db [] text = None"
  proof (rule ccontr)
    assume "search_from db [] text \<noteq> None"
    then obtain k where "search_from db [] text = Some k" by blast
    from search_from_identifier [OF this] a show False
      by (auto simp: contains_identifier_iff)
  qed
  then show ?thesis by (simp add: extract_issue_key_def)
qed

lemma process_question_calls_search:
  assumes "extract_issue_key db question = JNone"
  shows "fst (process_question db self question ctx) =
           [(''atlassian_search_issues'', [(''jql'', JStr question), (''max_results'', JInt 10)])]"
  using assms
  by (simp add: process_question_def search_jira_issues_def default_max_results_def Let_def)

lemma process_question_calls_lookup:
  assumes "search_from db [] question = Some k"
  shows "fst (process_question db self question ctx) =
           [(''atlassian_get_issue'', [(''issue_key'', JStr k)])]"
proof -
  have "k \<noteq> []"
    using search_from_identifier [OF assms] is_identifier_ends(1) by blast
  then show ?thesis
    using assms by (simp add: process_question_def extract_issue_key_def get_issue_details_def Let_def)
qed

lemma identifier_hyphen:
  assumes "is_identifier db k"
  shows "\<exists>h<length k. k ! h = Latin (CHR ''-'') \<and> (\<forall>p<h. is_upper (k ! p))"
proof -
  from assms obtain letters digits where k: "k = letters @ Latin (CHR ''-'') # digits" and
    c: "\<forall>c\<in>set letters. is_upper c"
    unfolding is_identifier_iff by auto
  have "length letters < length k" "k ! length letters = Latin (CHR ''-'')"
    by (simp_all add: k)
  moreover have "\<forall>p<length letters. is_upper (k ! p)"
    using c by (simp add: k nth_append)
  ultimately show ?thesis by blast
qed

lemma no_hyphen_no_identifier:
  assumes "Latin (CHR ''-'') \<notin> set text"
  shows "\<not> contains_identifier db text"
proof
  assume "contains_identifier db text"
  then obtain k where k: "sublist k text" "is_identifier db k"
    by (auto simp: contains_identifier_iff)
  from identifier_hyphen [OF k(2)] have "Latin (CHR ''-'') \<in> set k"
    by (metis nth_mem)
  with k(1) assms show False
    by (auto dest: set_mono_sublist)
qed

lemma delimited_before:
  assumes d: "delimited_at db text j m" and ji: "j < i" and le: "i \<le> length text"
    and nh: "Latin (CHR ''-'') \<notin> set (take i text)"
  shows "is_upper (text ! (i - 1))"
proof -
  define k where "k = take m (drop j text)"
  from d have jm: "j + m \<le> length text" and ik: "is_identifier db k"
    by (simp_all add: delimited_at_def k_def)
  have lk: "length k = m" using jm by (simp add: k_def)
  have nth_k: "k ! p = text ! (j + p)" if "p < m" for p
    using that jm by (simp add: k_def)
  from identifier_hyphen [OF ik] obtain h where
    h: "h < m" "k ! h = Latin (CHR ''-'')" "\<forall>p<h. is_upper (k ! p)"
    unfolding lk by blast
  have "i \<le> j + h"
  proof (rule ccontr)
    assume "\<not> i \<le> j + h"
    then have "j + h < length (take i text)" using le by simp
    then have "take i text ! (j + h) \<in> set (take i text)" by (rule nth_mem)
    moreover have "take i text ! (j + h) = Latin (CHR ''-'')"
      using \<open>\<not> i \<le> j + h\<close> h(1,2) nth_k [of h] by simp
    ultimately show False using nh by simp
  qed
  with ji have p: "i - 1 - j < h" by simp
  with h(3) have "is_upper (k ! (i - 1 - j))" by blast
  moreover have "k ! (i - 1 - j) = text ! (i - 1)"
    using nth_k [of "i - 1 - j"] p h(1) ji by simp
  ultimately show ?thesis by simp
qed

lemma first_delimitedI:
  assumes d: "delimited_at db text i n" and nh: "Latin (CHR ''-'') \<notin> set (take i text)"
  shows "first_delimited db text i n"
proof -
  have "\<not> delimited_at db text j m" if "j < i" for j m
  proof
    assume "delimited_at db text j m"
    from delimited_before [OF this that _ nh] d have "is_upper (text ! (i - 1))"
      by (simp add: delimited_at_def)
    then have "is_word db (text ! (i - 1))" by (rule upper_is_word)
    with d that show False by (simp add: delimited_at_def)
  qed
  with d show ?thesis by (simp add: first_delimited_def)
qed

text \<open>
  A text without a delimited identifier gives no key, and a text with one gives a key.
\<close>

lemma search_from_delimited:
  assumes "search_from db [] text = Some k"
  shows "\<exists>i. delimited_at db text i (length k)"
proof -
  from search_from_sound [OF assms] obtain pre ahead where
    t: "text = pre @ k @ ahead" and m: "match_pattern db ([] @ pre) (k @ ahead) = Some k"
    by blast
  have "take (length pre) text = pre" "drop (length pre) text = k @ ahead"
    by (simp_all add: t)
  with m have "match_pattern db (take (length pre) text) (drop (length pre) text) = Some k"
    by simp
  from match_delimited_at [OF this] have "delimited_at db text (length pre) (length k)"
    by (simp add: t)
  then show ?thesis ..
qed

lemma extract_issue_key_no_delimited:
  assumes "\<forall>j m. \<not> delimited_at db text j m"
  shows "extract_issue_key db text = JNone"
proof (cases "search_from db [] text")
  case None
  then show ?thesis by (simp add: extract_issue_key_def)
next
  case (Some k)
  from search_from_delimited [OF Some] assms show ?thesis by blast
qed

lemma search_from_finds:
  "match_pattern db (seen @ pre) rest = Some k \<Longrightarrow> search_from db seen (pre @ rest) \<noteq> None"
proof (induction pre arbitrary: seen)
  case Nil
  then show ?case by (simp add: search_from_here)
next
  case (Cons c pre)
  from Cons.prems have "match_pattern db ((seen @ [c]) @ pre) rest = Some k" by simp
  from Cons.IH [OF this] show ?case
    by (simp split: option.splits)
qed

lemma delimited_found:
  assumes "delimited_at db text i n"
  shows "search_from db [] text \<noteq> None"
proof -
  from delimited_at_match [OF assms]
  have "match_pattern db ([] @ take i text) (drop i text) = Some (take n (drop i text))"
    by simp
  from search_from_finds [OF this] show ?thesis by simp
qed

lemma example_question_first:
  "first_delimited db (lit ''What's the status of SUP-129?'') 21 7"
  by (rule first_delimitedI) (simp_all add: lit_def delimited_at_def is_identifier_def)

lemma arabic_question_first: "first_delimited sample_db arabic_question 0 5"
  by (rule first_delimitedI)
     (simp_all add: arabic_question_def lit_def delimited_at_def is_identifier_def sample_db_def)

lemma glued_question_none: "search_from sample_db [] (lit ''aSUP-129'') = None"
  by code_simp

text \<open>
  C1, as the specification states it, fails: the text \<open>aSUP-129\<close> contains the
  identifier \<open>SUP-129\<close>, but the pattern of the code asks for a word boundary on
  both sides, finds no match, and the dispatcher searches. The text is a Latin-1 one, on
  which the database is not consulted.
\<close>

theorem process_question_identifier_counterexample:
  "contains_identifier sample_db (lit ''aSUP-129'') \<and>
   fst (process_question sample_db example_agent (lit ''aSUP-129'') ()) =
     [(''atlassian_search_issues'',
       [(''jql'', JStr (lit ''aSUP-129'')), (''max_results'', JInt 10)])]"
proof -
  have "sublist (lit ''SUP-129'') (lit ''aSUP-129'')"
    unfolding sublist_def by (intro exI [of _ "lit ''a''"] exI [of _ "[]"]) simp
  moreover have "is_identifier sample_db (lit ''SUP-129'')"
    by (simp add: lit_def is_identifier_def)
  ultimately have "contains_identifier sample_db (lit ''aSUP-129'')"
    unfolding contains_identifier_iff by blast
  moreover have "extract_issue_key sample_db (lit ''aSUP-129'') = JNone"
    by (simp add: extract_issue_key_def glued_question_none)
  ultimately show ?thesis
    by (simp add: process_question_calls_search)
qed

text \<open>
  C1, amended. When the text holds an identifier (letters \<open>A\<close> to \<open>Z\<close>, a hyphen,
  decimal digits) with no word character next to it on either side, the dispatcher makes
  exactly one provider call: the lookup of the first such identifier. When the text
  holds no such delimited identifier, as when every identifier in it touches a word
  character, the dispatcher makes exactly one provider call: the search for the whole
  text.
\<close>

theorem process_question_delimited_routing:
  "(first_delimited db question i n \<longrightarrow>
      fst (process_question db self question ctx) =
        [(''atlassian_get_issue'', [(''issue_key'', JStr (take n (drop i question)))])]) \<and>
   ((\<forall>j m. \<not> delimited_at db question j m) \<longrightarrow>
      fst (process_question db self question ctx) =
        [(''atlassian_search_issues'', [(''jql'', JStr question), (''max_results'', JInt 10)])])"
  by (auto intro: process_question_calls_lookup search_from_first_delimited
        process_question_calls_search extract_issue_key_no_delimited)

theorem process_question_delimited_routing_witness:
  "first_delimited sample_db (lit ''What's the status of SUP-129?'') 21 7 \<and>
   fst (process_question sample_db example_agent (lit ''What's the status of SUP-129?'') ()) =
     [(''atlassian_get_issue'', [(''issue_key'', JStr (lit ''SUP-129''))])] \<and>
   first_delimited sample_db arabic_question 0 5 \<and>
   fst (process_question sample_db example_agent arabic_question ()) =
     [(''atlassian_get_issue'', [(''issue_key'', JStr (lit ''SUP-'' @ [Wide 1377]))])] \<and>
   (\<forall>j m. \<not> delimited_at sample_db (lit ''aSUP-129'') j m) \<and>
   fst (process_question sample_db example_agent (lit ''aSUP-129'') ()) =
     [(''atlassian_search_issues'',
       [(''jql'', JStr (lit ''aSUP-129'')), (''max_results'', JInt 10)])]"
proof -
  have a: "take 7 (drop 21 (lit ''What's the status of SUP-129?'')) = lit ''SUP-129''"
    by (simp add: lit_def)
  have b: "take 5 arabic_question = lit ''SUP-'' @ [Wide 1377]"
    by (simp add: arabic_question_def lit_def)
  have c: "\<forall>j m. \<not> delimited_at sample_db (lit ''aSUP-129'') j m"
    using delimited_found [of sample_db "lit ''aSUP-129''"] glued_question_none by blast
  show ?thesis
    using process_question_delimited_routing [where db = sample_db and self = example_agent
        and ctx = "()" and question = "lit ''What's the status of SUP-129?''" and i = 21 and n = 7]
      process_question_delimited_routing [where db = sample_db and self = example_agent
        and ctx = "()" and question = arabic_question and i = 0 and n = 5]
      process_question_delimited_routing [where db = sample_db and self = example_agent
        and ctx = "()" and question = "lit ''aSUP-129''"]
    by (simp add: example_question_first arabic_question_first a b c)
qed

text \<open>
  C6. When no part of the text is an identifier (uppercase letters, a hyphen, digits, a
  digit being a decimal digit of any script), the dispatcher makes exactly one provider
  call: a search whose query is the whole text and whose result limit is the default 10.
  It makes no lookup. This holds for every text over the whole of Unicode and for every
  database.
\<close>

theorem process_question_search_without_identifier:
  assumes "\<not> contains_identifier db question"
  shows "fst (process_question db self question ctx) =
           [(''atlassian_search_issues'', [(''jql'', JStr question), (''max_results'', JInt 10)])]"
  by (rule process_question_calls_search) (rule extract_issue_key_None [OF assms])

theorem process_question_search_without_identifier_witness:
  "\<not> contains_identifier sample_db (lit ''payment failures'') \<and>
   fst (process_question sample_db example_agent (lit ''payment failures'') ()) =
     [(''atlassian_search_issues'',
       [(''jql'', JStr (lit ''payment failures'')), (''max_results'', JInt 10)])]"
proof -
  have "\<not> contains_identifier sample_db (lit ''payment failures'')"
    by (rule no_hyphen_no_identifier) (simp add: lit_def)
  then show ?thesis
    using process_question_search_without_identifier [where db = sample_db
        and self = example_agent and ctx = "()" and question = "lit ''payment failures''"]
    by simp
qed

section \<open>Formatting and dispatch: properties\<close>

lemma summary_read:
  assumes "search_record_shaped r"
  shows "then_get (py_get r (lit ''fields'') (JDict [])) (lit ''summary'')
           (JStr (lit ''No summary''))
         = Inr (record_summary r)"
  using assms
  by (auto simp: search_record_shaped_def then_get_def py_get_dict record_summary_def field_of_def
           split: option.splits)

lemma key_read:
  "is_dict r \<Longrightarrow> py_get r (lit ''key'') (JStr (lit ''Unknown'')) = Inr (record_key r)"
  by (simp add: py_get_dict record_key_def split: option.splits)

text \<open>The loop over the listed records, in closed form.\<close>

lemma search_results_loop_shaped:
  "list_all search_record_shaped rs \<Longrightarrow>
     search_results_loop db rs response = Inr (response @ concat (map (result_line db) rs))"
proof (induction rs arbitrary: response)
  case Nil
  then show ?case by simp
next
  case (Cons r rs)
  then have r: "search_record_shaped r" and rs: "list_all search_record_shaped rs"
    by simp_all
  have d: "is_dict r" using r by (simp add: search_record_shaped_def)
  show ?case
    by (simp add: key_read [OF d] summary_read [OF r] Cons.IH [OF rs] result_line_def)
qed

lemma example_results_shaped: "list_all search_record_shaped (take 5 example_results)"
  by (simp add: example_results_def example_issue_def search_record_shaped_def field_of_def)

lemma extract_issue_key_cases:
  "extract_issue_key db question = JNone \<or>
   (\<exists>k. k \<noteq> [] \<and> extract_issue_key db question = JStr k)"
proof (cases "search_from db [] question")
  case None
  then show ?thesis by (simp add: extract_issue_key_def)
next
  case (Some k)
  from search_from_identifier [OF Some] have "k \<noteq> []"
    using is_identifier_ends(1) by blast
  with Some show ?thesis by (simp add: extract_issue_key_def)
qed

lemma example_question_key:
  "extract_issue_key db (lit ''What's the status of SUP-129?'') = JStr (lit ''SUP-129'')"
proof -
  have "take 7 (drop 21 (lit ''What's the status of SUP-129?'')) = lit ''SUP-129''"
    by (simp add: lit_def)
  with search_from_first_delimited [OF example_question_first, of db] show ?thesis
    by (simp add: extract_issue_key_def)
qed

text \<open>The two branches of the dispatcher, once the key is known.\<close>

lemma lookup_result:
  assumes "extract_issue_key db question = JStr key" and "key \<noteq> []"
  shows "snd (process_question db self question ctx) =
           (case mcp_client self ''atlassian_get_issue'' [(''issue_key'', JStr key)] of
              RaisedBase e \<Rightarrow> Inl (Uncaught e)
            | Raised e \<Rightarrow>
                Inr (lit ''Could not retrieve issue '' @ key
                     @ lit '': Failed to get issue details: '' @ e)
            | Returned issue_data \<Rightarrow>
                (case py_in (lit ''error'') issue_data of
                   Inl e \<Rightarrow> Inl e
                 | Inr has_error \<Rightarrow>
                     if \<not> has_error then
                       (case suggest_solutions self issue_data of
                          Inl e \<Rightarrow> Inl e
                        | Inr solutions \<Rightarrow> format_response db self issue_data solutions)
                     else
                       (case py_getitem issue_data (lit ''error'') of
                          Inl e \<Rightarrow> Inl e
                        | Inr reason \<Rightarrow>
                            Inr (lit ''Could not retrieve issue '' @ key @ lit '': ''
                                 @ py_str db reason))))"
  using assms
  by (simp add: process_question_def get_issue_details_def error_value_def py_str_def Let_def
           split: outcome.splits sum.splits)


lemma response_loop_extends: "\<exists>t. response_loop idx solutions response = response @ t"
proof (induction solutions arbitrary: idx response)
  case Nil
  then show ?case by simp
next
  case (Cons solution rest)
  define line where "line =
     (lit (str_nat idx) @ lit ''. ''
      @ solution_get solution ''suggestion'' (lit ''No suggestion'') @ lit [CHR 0x0A])
     @ (lit ''   Action: '' @ solution_get solution ''action'' (lit ''No action'')
        @ lit [CHR 0x0A, CHR 0x0A])"
  from Cons [of "Suc idx" "response @ line"] obtain t where
    t: "response_loop (Suc idx) rest (response @ line) = (response @ line) @ t"
    by blast
  have "response_loop idx (solution # rest) response
          = response_loop (Suc idx) rest (response @ line)"
    unfolding line_def by (simp only: response_loop.simps)
  with t have "response_loop idx (solution # rest) response = response @ (line @ t)"
    by simp
  then show ?case ..
qed

lemma format_response_head:
  "format_response db self issue_data solutions = Inr s \<Longrightarrow> hd s = Latin (CHR ''*'')"
proof -
  assume a: "format_response db self issue_data solutions = Inr s"
  then obtain response where s: "s = response_loop 1 solutions (lit ''**Issue: '' @ response)"
    by (auto simp: format_response_def Let_def split: sum.splits)
  from response_loop_extends [of 1 solutions "lit ''**Issue: '' @ response"] obtain t where
    "response_loop 1 solutions (lit ''**Issue: '' @ response) = (lit ''**Issue: '' @ response) @ t"
    by blast
  with s show ?thesis by (simp add: lit_def)
qed




text \<open>
  C5. On the empty sequence \<open>_format_search_results\<close> returns the fixed sentence.
  On a non-empty sequence of records it returns a header with the full count, followed by
  one line (key and summary) for each of the first five records only; anything past the
  fifth leaves no trace but the count. The witness is a sequence of seven.
\<close>

theorem format_search_results_first_five:
  "format_search_results db self (JList []) = Inr (lit ''No issues found matching your query.'') \<and>
   (rs \<noteq> [] \<and> list_all search_record_shaped (take 5 rs) \<longrightarrow>
      format_search_results db self (JList rs) =
        Inr (lit ''Found '' @ lit (str_nat (length rs)) @ lit '' issue(s):''
             @ lit [CHR 0x0A, CHR 0x0A] @ concat (map (result_line db) (take 5 rs))))"
  by (simp add: format_search_results_def search_results_loop_shaped)

theorem format_search_results_first_five_witness:
  "example_results \<noteq> [] \<and> length example_results = 7 \<and>
   list_all search_record_shaped (take 5 example_results) \<and>
   format_search_results sample_db example_agent (JList example_results) =
     Inr (lit (''Found 7 issue(s):'' @ [CHR 0x0A, CHR 0x0A]
               @ ''- PAY-1: Card declined'' @ [CHR 0x0A]
               @ ''- PAY-2: Refund stuck'' @ [CHR 0x0A]
               @ ''- PAY-3: Double charge'' @ [CHR 0x0A]
               @ ''- PAY-4: Timeout'' @ [CHR 0x0A]
               @ ''- PAY-5: Wrong currency'' @ [CHR 0x0A]))"
proof -
  have n: "example_results \<noteq> []" "length example_results = 7"
    by (simp_all add: example_results_def)
  have s: "str_nat 7 = ''7''"
    by (simp add: str_nat.simps)
  have l: "concat (map (result_line sample_db) (take 5 example_results)) =
             lit (''- PAY-1: Card declined'' @ [CHR 0x0A]
                  @ ''- PAY-2: Refund stuck'' @ [CHR 0x0A]
                  @ ''- PAY-3: Double charge'' @ [CHR 0x0A]
                  @ ''- PAY-4: Timeout'' @ [CHR 0x0A]
                  @ ''- PAY-5: Wrong currency'' @ [CHR 0x0A])"
    by (simp add: example_results_def example_issue_def result_line_def record_key_def
          record_summary_def field_of_def py_str_def)
  show ?thesis
    using format_search_results_first_five [where db = sample_db and self = example_agent
        and rs = example_results]
      example_results_shaped
    by (simp add: n s l)
qed




text \<open>
  C10. When a lookup returns a dictionary, the dispatcher takes it for a failure if and
  only if it has a top-level key \<open>error\<close>: a retrieved record that carries such a
  field is answered with the \<open>Could not retrieve issue\<close> sentence, built from the
  value of the field, and not with the formatted issue.
\<close>

theorem process_question_error_key:
  assumes "extract_issue_key db question = JStr key"
    and "mcp_client self ''atlassian_get_issue'' [(''issue_key'', JStr key)] = Returned (JDict kvs)"
  shows "snd (process_question db self question ctx) =
           (case map_of kvs (lit ''error'') of
              Some reason \<Rightarrow>
                Inr (lit ''Could not retrieve issue '' @ key @ lit '': '' @ py_str db reason)
            | None \<Rightarrow>
                (case suggest_solutions self (JDict kvs) of
                   Inl e \<Rightarrow> Inl e
                 | Inr solutions \<Rightarrow> format_response db self (JDict kvs) solutions)) \<and>
         (\<exists>rest. snd (process_question db self question ctx)
                   = Inr (lit ''Could not retrieve issue '' @ rest))
           = (map_of kvs (lit ''error'') \<noteq> None)"
proof -
  have k: "key \<noteq> []"
    using extract_issue_key_cases [of db question] assms(1) by auto
  have r: "snd (process_question db self question ctx) =
           (case map_of kvs (lit ''error'') of
              Some reason \<Rightarrow>
                Inr (lit ''Could not retrieve issue '' @ key @ lit '': '' @ py_str db reason)
            | None \<Rightarrow>
                (case suggest_solutions self (JDict kvs) of
                   Inl e \<Rightarrow> Inl e
                 | Inr solutions \<Rightarrow> format_response db self (JDict kvs) solutions))"
    by (simp add: lookup_result [OF assms(1) k] assms(2) split: option.splits)
  have "(\<exists>rest. snd (process_question db self question ctx)
                  = Inr (lit ''Could not retrieve issue '' @ rest))
           = (map_of kvs (lit ''error'') \<noteq> None)"
  proof (cases "map_of kvs (lit ''error'')")
    case None
    have "snd (process_question db self question ctx)
            \<noteq> Inr (lit ''Could not retrieve issue '' @ rest)" for rest
    proof
      assume e: "snd (process_question db self question ctx)
                   = Inr (lit ''Could not retrieve issue '' @ rest)"
      with r None obtain solutions where
        "format_response db self (JDict kvs) solutions
           = Inr (lit ''Could not retrieve issue '' @ rest)"
        by (auto split: sum.splits)
      from format_response_head [OF this] show False by (simp add: lit_def)
    qed
    with None show ?thesis by simp
  next
    case (Some reason)
    with r show ?thesis by simp
  qed
  with r show ?thesis by blast
qed

theorem process_question_error_key_witness:
  "extract_issue_key sample_db (lit ''What's the status of SUP-129?'') = JStr (lit ''SUP-129'') \<and>
   mcp_client error_field_agent ''atlassian_get_issue'' [(''issue_key'', JStr (lit ''SUP-129''))] =
     Returned (JDict [(lit ''key'', JStr (lit ''SUP-129'')),
                      (lit ''error'', JStr (lit ''NullPointerException in login'')),
                      (lit ''fields'', JDict [(lit ''summary'', JStr (lit ''Login fails''))])]) \<and>
   snd (process_question sample_db error_field_agent (lit ''What's the status of SUP-129?'') ()) =
     Inr (lit ''Could not retrieve issue SUP-129: NullPointerException in login'')"
proof -
  have m: "mcp_client error_field_agent ''atlassian_get_issue''
             [(''issue_key'', JStr (lit ''SUP-129''))] =
     Returned (JDict [(lit ''key'', JStr (lit ''SUP-129'')),
                      (lit ''error'', JStr (lit ''NullPointerException in login'')),
                      (lit ''fields'', JDict [(lit ''summary'', JStr (lit ''Login fails''))])])"
    by (simp add: error_field_agent_def)
  show ?thesis
    using process_question_error_key [OF example_question_key m, where ctx = "()" and db = sample_db]
    by (simp add: example_question_key m py_str_def)
qed


end
